theory Spec2Isabelle
  imports Main "HOL-Library.Sublist" "HOL-Library.Multiset"
begin

section \<open>Python values and strings\<close>

text \<open>
  A Python \<open>str\<close> is a sequence of Unicode code points: a list of integers, the values of
  \<open>ord\<close>, one per code point. \<open>str s\<close> is the string of an Isabelle literal, character by
  character.
\<close>

type_synonym pystr = "int list"

definition str :: "string \<Rightarrow> pystr" where
  "str s = map of_char s"

text \<open>
  \<open>c.lower()\<close> on a string of one code point, as the Python library computes it (Unicode
  14.0). The table lists the code points that have another lowercase form, in runs
  \<open>(lo, hi, step, target)\<close>: the code points \<open>lo\<close>, \<open>lo + step\<close>, ... up to \<open>hi\<close> become
  \<open>target\<close>, \<open>target + step\<close>, ... The first three runs are the ASCII and the Latin-1
  capitals.
\<close>

definition lower_table :: "(int \<times> int \<times> int \<times> int) list" where
  "lower_table =
     [(65, 90, 1, 97), (192, 214, 1, 224), (216, 222, 1, 248), (256, 302, 2, 257),
      (306, 310, 2, 307), (313, 327, 2, 314), (330, 374, 2, 331), (376, 376, 1, 255),
      (377, 381, 2, 378), (385, 385, 1, 595), (386, 388, 2, 387), (390, 390, 1, 596),
      (391, 391, 1, 392), (393, 394, 1, 598), (395, 395, 1, 396), (398, 398, 1, 477),
      (399, 399, 1, 601), (400, 400, 1, 603), (401, 401, 1, 402), (403, 403, 1, 608),
      (404, 404, 1, 611), (406, 406, 1, 617), (407, 407, 1, 616), (408, 408, 1, 409),
      (412, 412, 1, 623), (413, 413, 1, 626), (415, 415, 1, 629), (416, 420, 2, 417),
      (422, 422, 1, 640), (423, 423, 1, 424), (425, 425, 1, 643), (428, 428, 1, 429),
      (430, 430, 1, 648), (431, 431, 1, 432), (433, 434, 1, 650), (435, 437, 2, 436),
      (439, 439, 1, 658), (440, 440, 1, 441), (444, 444, 1, 445), (452, 452, 1, 454),
      (453, 453, 1, 454), (455, 455, 1, 457), (456, 456, 1, 457), (458, 458, 1, 460),
      (459, 475, 2, 460), (478, 494, 2, 479), (497, 497, 1, 499), (498, 500, 2, 499),
      (502, 502, 1, 405), (503, 503, 1, 447), (504, 542, 2, 505), (544, 544, 1, 414),
      (546, 562, 2, 547), (570, 570, 1, 11365), (571, 571, 1, 572), (573, 573, 1, 410),
      (574, 574, 1, 11366), (577, 577, 1, 578), (579, 579, 1, 384), (580, 580, 1, 649),
      (581, 581, 1, 652), (582, 590, 2, 583), (880, 882, 2, 881), (886, 886, 1, 887),
      (895, 895, 1, 1011), (902, 902, 1, 940), (904, 906, 1, 941), (908, 908, 1, 972),
      (910, 911, 1, 973), (913, 929, 1, 945), (931, 939, 1, 963), (975, 975, 1, 983),
      (984, 1006, 2, 985), (1012, 1012, 1, 952), (1015, 1015, 1, 1016),
      (1017, 1017, 1, 1010), (1018, 1018, 1, 1019), (1021, 1023, 1, 891),
      (1024, 1039, 1, 1104), (1040, 1071, 1, 1072), (1120, 1152, 2, 1121),
      (1162, 1214, 2, 1163), (1216, 1216, 1, 1231), (1217, 1229, 2, 1218),
      (1232, 1326, 2, 1233), (1329, 1366, 1, 1377), (4256, 4293, 1, 11520),
      (4295, 4295, 1, 11559), (4301, 4301, 1, 11565), (5024, 5103, 1, 43888),
      (5104, 5109, 1, 5112), (7312, 7354, 1, 4304), (7357, 7359, 1, 4349),
      (7680, 7828, 2, 7681), (7838, 7838, 1, 223), (7840, 7934, 2, 7841),
      (7944, 7951, 1, 7936), (7960, 7965, 1, 7952), (7976, 7983, 1, 7968),
      (7992, 7999, 1, 7984), (8008, 8013, 1, 8000), (8025, 8031, 2, 8017),
      (8040, 8047, 1, 8032), (8072, 8079, 1, 8064), (8088, 8095, 1, 8080),
      (8104, 8111, 1, 8096), (8120, 8121, 1, 8112), (8122, 8123, 1, 8048),
      (8124, 8124, 1, 8115), (8136, 8139, 1, 8050), (8140, 8140, 1, 8131),
      (8152, 8153, 1, 8144), (8154, 8155, 1, 8054), (8168, 8169, 1, 8160),
      (8170, 8171, 1, 8058), (8172, 8172, 1, 8165), (8184, 8185, 1, 8056),
      (8186, 8187, 1, 8060), (8188, 8188, 1, 8179), (8486, 8486, 1, 969),
      (8490, 8490, 1, 107), (8491, 8491, 1, 229), (8498, 8498, 1, 8526),
      (8544, 8559, 1, 8560), (8579, 8579, 1, 8580), (9398, 9423, 1, 9424),
      (11264, 11311, 1, 11312), (11360, 11360, 1, 11361), (11362, 11362, 1, 619),
      (11363, 11363, 1, 7549), (11364, 11364, 1, 637), (11367, 11371, 2, 11368),
      (11373, 11373, 1, 593), (11374, 11374, 1, 625), (11375, 11375, 1, 592),
      (11376, 11376, 1, 594), (11378, 11378, 1, 11379), (11381, 11381, 1, 11382),
      (11390, 11391, 1, 575), (11392, 11490, 2, 11393), (11499, 11501, 2, 11500),
      (11506, 11506, 1, 11507), (42560, 42604, 2, 42561), (42624, 42650, 2, 42625),
      (42786, 42798, 2, 42787), (42802, 42862, 2, 42803), (42873, 42875, 2, 42874),
      (42877, 42877, 1, 7545), (42878, 42886, 2, 42879), (42891, 42891, 1, 42892),
      (42893, 42893, 1, 613), (42896, 42898, 2, 42897), (42902, 42920, 2, 42903),
      (42922, 42922, 1, 614), (42923, 42923, 1, 604), (42924, 42924, 1, 609),
      (42925, 42925, 1, 620), (42926, 42926, 1, 618), (42928, 42928, 1, 670),
      (42929, 42929, 1, 647), (42930, 42930, 1, 669), (42931, 42931, 1, 43859),
      (42932, 42946, 2, 42933), (42948, 42948, 1, 42900), (42949, 42949, 1, 642),
      (42950, 42950, 1, 7566), (42951, 42953, 2, 42952), (42960, 42960, 1, 42961),
      (42966, 42968, 2, 42967), (42997, 42997, 1, 42998), (65313, 65338, 1, 65345),
      (66560, 66599, 1, 66600), (66736, 66771, 1, 66776), (66928, 66938, 1, 66967),
      (66940, 66954, 1, 66979), (66956, 66962, 1, 66995), (66964, 66965, 1, 67003),
      (68736, 68786, 1, 68800), (71840, 71871, 1, 71872), (93760, 93791, 1, 93792),
      (125184, 125217, 1, 125218)]"

text \<open>
  One code point has a lowercase form of two code points: U+0130 (304), the capital I with
  a dot above, becomes \<open>i\<close> (105) followed by the combining dot above U+0307 (775). Every
  code point outside the table is its own lowercase form.
\<close>

definition lower :: "int \<Rightarrow> pystr" where
  "lower c =
     (if c = 304 then [105, 775]
      else case find (\<lambda>(lo, hi, step, target).
                        lo \<le> c \<and> c \<le> hi \<and> (c - lo) mod step = 0) lower_table of
             None \<Rightarrow> [c]
           | Some (lo, hi, step, target) \<Rightarrow> [target + (c - lo)])"

text \<open>
  The program is dynamically typed: a token or a year handed to \<open>generate_wordlist\<close> can be
  any Python object. Only whether it is a \<open>str\<close> matters to the code, so the other values
  are represented by \<open>None\<close> and the integers.
\<close>

datatype pyval = PyStr pystr | PyNone | PyInt int

datatype error = TypeError | RecursionError

fun is_str :: "pyval \<Rightarrow> bool" where
  "is_str (PyStr s) = True"
| "is_str PyNone = False"
| "is_str (PyInt i) = False"

fun str_of :: "pyval \<Rightarrow> pystr" where
  "str_of (PyStr s) = s"
| "str_of PyNone = []"
| "str_of (PyInt i) = []"

text \<open>\<open>variant + year\<close>: \<open>str.__add__\<close> raises \<open>TypeError\<close> unless the right operand is a \<open>str\<close>.\<close>

fun str_add :: "pystr \<Rightarrow> pyval \<Rightarrow> error + pystr" where
  "str_add s (PyStr t) = Inr (s @ t)"
| "str_add s PyNone = Inl TypeError"
| "str_add s (PyInt i) = Inl TypeError"

text \<open>\<open>year + variant\<close>: neither \<open>None\<close> nor an \<open>int\<close> can be added to a \<open>str\<close>.\<close>

fun add_str :: "pyval \<Rightarrow> pystr \<Rightarrow> error + pystr" where
  "add_str (PyStr t) s = Inr (t @ s)"
| "add_str PyNone s = Inl TypeError"
| "add_str (PyInt i) s = Inl TypeError"

text \<open>
  \<open>symbol.join(combo)\<close>: the items separated by \<open>symbol\<close>; \<open>TypeError\<close> at the first item
  that is not a \<open>str\<close>.
\<close>

fun join :: "pystr \<Rightarrow> pyval list \<Rightarrow> error + pystr" where
  "join symbol [] = Inr []"
| "join symbol [PyStr s] = Inr s"
| "join symbol (PyStr s # t # ts) =
     (case join symbol (t # ts) of Inl e \<Rightarrow> Inl e | Inr r \<Rightarrow> Inr (s @ symbol @ r))"
| "join symbol (PyNone # ts) = Inl TypeError"
| "join symbol (PyInt i # ts) = Inl TypeError"

text \<open>A \<open>for\<close> loop whose body may raise: the first exception leaves the loop.\<close>

fun for_each :: "'a list \<Rightarrow> ('a \<Rightarrow> 's \<Rightarrow> error + 's) \<Rightarrow> 's \<Rightarrow> error + 's" where
  "for_each [] body s = Inr s"
| "for_each (x # xs) body s =
     (case body x s of Inl e \<Rightarrow> Inl e | Inr s' \<Rightarrow> for_each xs body s')"

section \<open>The constants\<close>

definition MAX_THREADS :: nat where
  "MAX_THREADS = 10"

definition JOIN_SYMBOLS :: "pystr list" where
  "JOIN_SYMBOLS =
     [[], str ''_'', str ''@'', str ''-'', str ''.'', str ''$'', str ''#'', str ''!'',
      str ''&'']"

text \<open>The keys of the dictionary are strings of one letter, and so are the substitutes.\<close>

definition LEET_DICT :: "pystr \<rightharpoonup> pystr list" where
  "LEET_DICT =
     map_of
       [(str ''a'', [str ''a'', str ''@'', str ''4'']),
        (str ''b'', [str ''b'', str ''8'']),
        (str ''e'', [str ''e'', str ''3'']),
        (str ''g'', [str ''g'', str ''9'']),
        (str ''i'', [str ''i'', str ''1'', str ''!'']),
        (str ''l'', [str ''l'', str ''1'']),
        (str ''o'', [str ''o'', str ''0'']),
        (str ''s'', [str ''s'', str ''$'', str ''5'']),
        (str ''t'', [str ''t'', str ''7'']),
        (str ''z'', [str ''z'', str ''2''])]"

section \<open>The leet expander\<close>

text \<open>
  The list that the recursion of \<open>leetspeak_variations\<close> builds. \<open>first_char\<close> is the string
  \<open>word[0].lower()\<close>, which is looked up in the dictionary as a whole.
\<close>

fun leetspeak_variations :: "pystr \<Rightarrow> pystr list" where
  "leetspeak_variations [] = [[]]"
| "leetspeak_variations (c # rest) =
     (let first_char = lower c;
          variations = leetspeak_variations rest
      in case LEET_DICT first_char of
           Some cands \<Rightarrow> concat (map (\<lambda>char. map (\<lambda>var. char @ var) variations) cands)
         | None \<Rightarrow> map (\<lambda>var. first_char @ var) variations)"

text \<open>
  The function calls itself once per character, and the interpreter bounds the depth of
  the calls. \<open>leetspeak_variations_within frames word\<close> is the call made when the
  interpreter admits \<open>frames\<close> more nested calls: with none left, the call raises
  \<open>RecursionError\<close>, which every caller above passes on.
\<close>

fun leetspeak_variations_within :: "nat \<Rightarrow> pystr \<Rightarrow> error + pystr list" where
  "leetspeak_variations_within 0 word = Inl RecursionError"
| "leetspeak_variations_within (Suc frames) [] = Inr [[]]"
| "leetspeak_variations_within (Suc frames) (c # rest) =
     (let first_char = lower c
      in case leetspeak_variations_within frames rest of
           Inl e \<Rightarrow> Inl e
         | Inr variations \<Rightarrow>
             (case LEET_DICT first_char of
                Some cands \<Rightarrow>
                  Inr (concat (map (\<lambda>char. map (\<lambda>var. char @ var) variations) cands))
              | None \<Rightarrow> Inr (map (\<lambda>var. first_char @ var) variations)))"

section \<open>The mutation engine\<close>

text \<open>
  The inner loop \<open>for year in years\<close>, run on a word \<open>w\<close>: it adds \<open>w + year\<close>, then
  \<open>year + w\<close>, to the set \<open>mangled_words\<close>.
\<close>

definition add_years :: "pystr \<Rightarrow> pyval list \<Rightarrow> pystr set \<Rightarrow> error + pystr set" where
  "add_years w years mangled_words =
     for_each years
       (\<lambda>year m. case str_add w year of
                    Inl e \<Rightarrow> Inl e
                  | Inr appended \<Rightarrow>
                      (case add_str year w of
                         Inl e \<Rightarrow> Inl e
                       | Inr prepended \<Rightarrow> Inr (insert prepended (insert appended m))))
       mangled_words"

text \<open>The loop \<open>for symbol in JOIN_SYMBOLS\<close>, which sits inside the loop over the variants.\<close>

definition add_joined :: "pyval list \<Rightarrow> pyval list \<Rightarrow> pystr set \<Rightarrow> error + pystr set" where
  "add_joined combo years mangled_words =
     for_each JOIN_SYMBOLS
       (\<lambda>symbol m. case join symbol combo of
                      Inl e \<Rightarrow> Inl e
                    | Inr joined \<Rightarrow> add_years joined years (insert joined m))
       mangled_words"

text \<open>
  \<open>process_combo\<close> calls the expander on a base word of at most 12 code points, so on a
  depth of at most 13 calls, whatever the tokens are: the bound of the interpreter (1000
  calls unless a program changes it, which this one does not) plays no part there.
\<close>

definition process_combo :: "pyval list \<Rightarrow> pyval list \<Rightarrow> error + pystr set" where
  "process_combo combo years =
     (case join [] combo of
        Inl e \<Rightarrow> Inl e
      | Inr base_word \<Rightarrow>
          (let leet_variants =
                 (if length base_word > 12 then [base_word]
                  else leetspeak_variations base_word)
           in for_each leet_variants
                (\<lambda>variant m. case add_years variant years (insert variant m) of
                                Inl e \<Rightarrow> Inl e
                              | Inr m' \<Rightarrow> add_joined combo years m')
                {}))"

section \<open>The combination enumerator\<close>

text \<open>
  \<open>itertools.combinations(words, r)\<close> belongs to the Python library: the tuples of \<open>r\<close>
  items of \<open>words\<close>, chosen by position, in the lexicographic order of the positions. None
  when \<open>r\<close> exceeds the number of items.
\<close>

fun combinations :: "'a list \<Rightarrow> nat \<Rightarrow> 'a list list" where
  "combinations xs 0 = [[]]"
| "combinations [] (Suc r) = []"
| "combinations (x # xs) (Suc r) =
     map (\<lambda>c. x # c) (combinations xs r) @ combinations xs (Suc r)"

text \<open>
  The list \<open>combos\<close> of \<open>generate_wordlist\<close>; \<open>range(1, min(6, len(words)+1))\<close> is
  \<open>[1..<min 6 (length words + 1)]\<close>.
\<close>

definition combos_of :: "'a list \<Rightarrow> 'a list list" where
  "combos_of words =
     concat (map (\<lambda>r. combinations words r) [1..<min 6 (length words + 1)])"

text \<open>The count \<open>total_combos\<close> that \<open>main\<close> prints before the run.\<close>

definition total_combos :: "'a list \<Rightarrow> nat" where
  "total_combos words =
     sum_list (map (\<lambda>r. length (combinations words r)) [1..<min 6 (length words + 1)])"

section \<open>The coordinator\<close>

text \<open>
  The units of work are the combinations, numbered in the order of their submission. The
  workers share the counter \<open>processed\<close>, and each unit has a future that receives its
  outcome once: the set returned by \<open>wrapped_process\<close>, or the exception it raised.
\<close>

type_synonym outcome = "error + pystr set"

record workers =
  processed :: nat
  futures :: "nat \<rightharpoonup> outcome"

text \<open>
  \<open>wrapped_process\<close>: the counter is incremented, under the lock, after \<open>process_combo\<close> has
  returned; an exception of \<open>process_combo\<close> leaves the function before the increment.
\<close>

definition wrapped_process :: "pyval list \<Rightarrow> pyval list \<Rightarrow> nat \<Rightarrow> outcome \<times> nat" where
  "wrapped_process years combo counter =
     (case process_combo combo years of
        Inl e \<Rightarrow> (Inl e, counter)
      | Inr result \<Rightarrow> (Inr result, counter + 1))"

definition run_unit :: "pyval list \<Rightarrow> nat \<times> pyval list \<Rightarrow> workers \<Rightarrow> workers" where
  "run_unit years u w =
     (let (out, counter) = wrapped_process years (snd u) (processed w)
      in w\<lparr>processed := counter, futures := (futures w)(fst u \<mapsto> out)\<rparr>)"

text \<open>
  The pool runs the units in an order of its own. The only shared write is the increment,
  which the lock makes atomic, so an execution of the pool is a sequence of units: the
  schedule.
\<close>

definition run_workers :: "pyval list \<Rightarrow> (nat \<times> pyval list) list \<Rightarrow> workers \<Rightarrow> workers" where
  "run_workers years schedule w = fold (run_unit years) schedule w"

record collector =
  final_words :: "pystr set"
  pbar :: nat
  reported :: "(pyval list \<times> error) list"

text \<open>
  The loop \<open>for future in future_to_combo\<close> visits the futures in the order of submission.
  \<open>future.result()\<close> waits for the unit, then returns its set or raises its exception again,
  which the \<open>except\<close> clause prints with the combination. A future that no worker ever
  completes makes the loop wait forever: \<open>None\<close>.
\<close>

fun collect :: "(nat \<rightharpoonup> outcome) \<Rightarrow> (nat \<times> pyval list) list \<Rightarrow> collector \<Rightarrow> collector option"
  where
  "collect futs [] c = Some c"
| "collect futs (u # us) c =
     (case futs (fst u) of
        None \<Rightarrow> None
      | Some (Inr result) \<Rightarrow>
          collect futs us (c\<lparr>final_words := final_words c \<union> result, pbar := pbar c + 1\<rparr>)
      | Some (Inl e) \<Rightarrow>
          collect futs us (c\<lparr>reported := reported c @ [(snd u, e)]\<rparr>))"

text \<open>
  What a run leaves behind: the words (returned as a list of the set \<open>final_words\<close>, in an
  order the program does not fix), \<open>estimated_total\<close>, the counter \<open>processed[0]\<close>, the
  position of the progress bar and the error lines printed.
\<close>

record run_result =
  wordlist :: "pystr set"
  estimated_total :: nat
  processed_units :: nat
  progress :: nat
  failures :: "(pyval list \<times> error) list"

definition units_of :: "pyval list \<Rightarrow> (nat \<times> pyval list) list" where
  "units_of words = enumerate 0 (combos_of words)"

definition generate_wordlist ::
  "(nat \<times> pyval list) list \<Rightarrow> pyval list \<Rightarrow> pyval list \<Rightarrow> run_result option" where
  "generate_wordlist schedule words years =
     (let combos = combos_of words;
          w = run_workers years schedule \<lparr>processed = 0, futures = Map.empty\<rparr>
      in case collect (futures w) (enumerate 0 combos)
                \<lparr>final_words = {}, pbar = 0, reported = []\<rparr> of
           None \<Rightarrow> None
         | Some c \<Rightarrow>
             Some \<lparr>wordlist = final_words c, estimated_total = length combos,
                   processed_units = processed w, progress = pbar c,
                   failures = reported c\<rparr>)"

text \<open>
  The executor runs every submitted unit once: the schedules of a run are the orderings of
  its units.
\<close>

definition schedule_of :: "pyval list \<Rightarrow> (nat \<times> pyval list) list \<Rightarrow> bool" where
  "schedule_of words schedule \<longleftrightarrow> mset schedule = mset (units_of words)"

section \<open>The leet expander in the words of the specification\<close>

text \<open>
  The lowercase form of a string: the lowercase forms of its characters, in order, each
  character taken on its own. (\<open>str.lower()\<close> on a whole string gives the same, except for a
  capital sigma at the end of a word, which becomes U+03C2 and not U+03C3; neither is in
  the substitution table.)
\<close>

definition lowercase :: "pystr \<Rightarrow> pystr" where
  "lowercase t = concat (map lower t)"

text \<open>
  The candidates of a character: its list in the substitution table, which holds the
  letter itself, or the character alone when the table does not have it.
\<close>

definition candidates :: "int \<Rightarrow> pystr list" where
  "candidates c = (case LEET_DICT [c] of Some cands \<Rightarrow> cands | None \<Rightarrow> [[c]])"

definition num_candidates :: "int \<Rightarrow> nat" where
  "num_candidates c = (case LEET_DICT [c] of Some cands \<Rightarrow> length cands | None \<Rightarrow> 1)"

text \<open>
  The expansion as the specification states it: the word is lowercased, and the result is
  the Cartesian product, across the character positions of the lowercased word, of the
  candidates of each position, concatenated in the original order.
\<close>

definition expand :: "pystr \<Rightarrow> pystr set" where
  "expand word = set (map concat (product_lists (map candidates (lowercase word))))"

text \<open>
  The same product taken across the character positions of the word itself. The
  candidates of a position are those of the lowercase form of its character; a lowercase
  form of more than one code point is no character of the table and is the only candidate
  of its position.
\<close>

definition position_candidates :: "int \<Rightarrow> pystr list" where
  "position_candidates c =
     (if length (lower c) = 1 then candidates (hd (lower c)) else [lower c])"

definition num_position_candidates :: "int \<Rightarrow> nat" where
  "num_position_candidates c =
     (if length (lower c) = 1 then num_candidates (hd (lower c)) else 1)"

definition expand_positions :: "pystr \<Rightarrow> pystr set" where
  "expand_positions word = set (map concat (product_lists (map position_candidates word)))"

section \<open>The mutation engine in the words of the specification\<close>

text \<open>The tokens joined pairwise by the symbol, in the order of the combination.\<close>

fun joined_form :: "pystr \<Rightarrow> pystr list \<Rightarrow> pystr" where
  "joined_form symbol [] = []"
| "joined_form symbol [t] = t"
| "joined_form symbol (t # u # us) = t @ symbol @ joined_form symbol (u # us)"

text \<open>Each word of a set with each year appended and prepended.\<close>

definition affixed :: "pystr list \<Rightarrow> pystr set \<Rightarrow> pystr set" where
  "affixed years W = (\<Union>w\<in>W. \<Union>y\<in>set years. {w @ y, y @ w})"

text \<open>
  The set that the specification's algorithm describes, for a given leet expander: the
  leet variants of the base word (the base word alone beyond 12 characters), the
  symbol-joined forms, and both with each year as a suffix and as a prefix.
\<close>

definition mutate_with ::
  "(pystr \<Rightarrow> pystr set) \<Rightarrow> pystr list \<Rightarrow> pystr list \<Rightarrow> pystr set" where
  "mutate_with expander combo years =
     (let base_word = concat combo;
          leet_variants =
            (if length base_word \<le> 12 then expander base_word else {base_word});
          joined = (\<lambda>symbol. joined_form symbol combo) ` set JOIN_SYMBOLS
      in leet_variants \<union> affixed years leet_variants \<union> joined \<union> affixed years joined)"

text \<open>The algorithm with the leet expander of the specification.\<close>

definition mutate :: "pystr list \<Rightarrow> pystr list \<Rightarrow> pystr set" where
  "mutate combo years = mutate_with expand combo years"

section \<open>What a run has to deliver\<close>

text \<open>A unit succeeds when \<open>process_combo\<close> returns a set for its combination.\<close>

definition succeeds :: "pyval list \<Rightarrow> pyval list \<Rightarrow> bool" where
  "succeeds years combo =
     (case process_combo combo years of Inl e \<Rightarrow> False | Inr result \<Rightarrow> True)"

text \<open>The error lines, in the order of submission: each failing combination with its error.\<close>

definition failure_lines :: "pyval list \<Rightarrow> pyval list list \<Rightarrow> (pyval list \<times> error) list" where
  "failure_lines years combos =
     concat (map (\<lambda>c. case process_combo c years of Inl e \<Rightarrow> [(c, e)] | Inr result \<Rightarrow> [])
               combos)"

text \<open>The union of the sets returned by the units that succeed.\<close>

definition union_of_results :: "pyval list \<Rightarrow> pyval list list \<Rightarrow> pystr set" where
  "union_of_results years combos =
     (\<Union>c\<in>set combos. case process_combo c years of Inl e \<Rightarrow> {} | Inr result \<Rightarrow> result)"

section \<open>The leet expander: product, size and distinctness\<close>

lemma LEET_DICT_entry:
  "LEET_DICT key = Some cands \<Longrightarrow>
   length key = 1 \<and> distinct cands \<and> (\<forall>x\<in>set cands. length x = 1)"
  by (auto simp: LEET_DICT_def str_def split: if_splits)

lemma lower_single: "c \<noteq> 304 \<Longrightarrow> \<exists>d. lower c = [d]"
  by (simp add: lower_def split: option.splits prod.splits)

lemma lower_dotted_I: "lower 304 = [105, 775]"
  by (simp add: lower_def)

lemma position_candidates_lookup:
  "position_candidates c
   = (case LEET_DICT (lower c) of Some cands \<Rightarrow> cands | None \<Rightarrow> [lower c])"
proof (cases "length (lower c) = 1")
  case True
  then obtain d where "lower c = [d]"
    by (cases "lower c") auto
  then show ?thesis
    by (simp add: position_candidates_def candidates_def split: option.splits)
next
  case False
  then have "LEET_DICT (lower c) = None"
    using LEET_DICT_entry[of "lower c"] by (cases "LEET_DICT (lower c)") auto
  with False show ?thesis
    by (simp add: position_candidates_def)
qed

lemma num_position_candidates_length:
  "num_position_candidates c = length (position_candidates c)"
  by (simp add: num_position_candidates_def position_candidates_def num_candidates_def
      candidates_def split: option.splits)

lemma leet_product:
  "leetspeak_variations t = map concat (product_lists (map position_candidates t))"
proof (induction t)
  case Nil
  then show ?case by simp
next
  case (Cons c t)
  show ?case
  proof (cases "LEET_DICT (lower c)")
    case None
    then have "position_candidates c = [lower c]"
      by (simp add: position_candidates_lookup)
    with None Cons show ?thesis
      by (simp add: comp_def)
  next
    case (Some cands)
    then have "position_candidates c = cands"
      by (simp add: position_candidates_lookup)
    with Some Cons show ?thesis
      by (simp add: comp_def map_concat)
  qed
qed

lemma leet_set: "set (leetspeak_variations t) = expand_positions t"
  by (simp add: expand_positions_def leet_product)

lemma distinct_prepend_each:
  assumes "distinct cands" "\<forall>x\<in>set cands. length x = n" "distinct vs"
  shows "distinct (concat (map (\<lambda>char. map (\<lambda>var. char @ var) vs) cands))"
  using assms
proof (induction cands)
  case Nil
  then show ?case by simp
next
  case (Cons x cands)
  have "\<And>y v w. y \<in> set cands \<Longrightarrow> x @ v = y @ w \<Longrightarrow> False"
  proof -
    fix y v w assume y: "y \<in> set cands" and e: "x @ v = y @ w"
    from y Cons.prems have "length x = length y" by simp
    with e have "x = y" by simp
    with y Cons.prems show False by simp
  qed
  then have "set (map (\<lambda>var. x @ var) vs)
      \<inter> set (concat (map (\<lambda>char. map (\<lambda>var. char @ var) vs) cands)) = {}"
    by fastforce
  with Cons show ?case
    by (simp add: distinct_map inj_on_def)
qed

lemma leet_distinct: "distinct (leetspeak_variations t)"
proof (induction t)
  case Nil
  then show ?case by simp
next
  case (Cons c t)
  show ?case
  proof (cases "LEET_DICT (lower c)")
    case None
    with Cons show ?thesis
      by (simp add: distinct_map inj_on_def)
  next
    case (Some cands)
    then have "distinct cands" "\<forall>x\<in>set cands. length x = 1"
      using LEET_DICT_entry[of "lower c" cands] by auto
    from distinct_prepend_each[OF this Cons] Some show ?thesis
      by simp
  qed
qed

lemma leet_length:
  "length (leetspeak_variations t) = prod_list (map num_position_candidates t)"
  by (induction t)
    (simp_all add: leet_product num_position_candidates_length length_concat comp_def
       sum_list_triv length_product_lists)

lemma lowercase_single:
  "304 \<notin> set t \<Longrightarrow> map f (lowercase t) = map (\<lambda>c. f (hd (lower c))) t"
proof (induction t)
  case Nil
  then show ?case by (simp add: lowercase_def)
next
  case (Cons c t)
  then have "c \<noteq> 304" by auto
  then obtain d where "lower c = [d]"
    using lower_single by blast
  with Cons show ?case
    by (simp add: lowercase_def)
qed

lemma position_candidates_single:
  "c \<noteq> 304 \<Longrightarrow> position_candidates c = candidates (hd (lower c))"
  using lower_single[of c] by (auto simp: position_candidates_def)

lemma num_position_candidates_single:
  "c \<noteq> 304 \<Longrightarrow> num_position_candidates c = num_candidates (hd (lower c))"
  using lower_single[of c] by (auto simp: num_position_candidates_def)

lemma expand_positions_expand: "304 \<notin> set word \<Longrightarrow> expand_positions word = expand word"
proof -
  assume a: "304 \<notin> set word"
  then have m: "map position_candidates word = map (\<lambda>c. candidates (hd (lower c))) word"
    by (auto intro!: position_candidates_single)
  show ?thesis
    by (simp only: expand_positions_def expand_def lowercase_single[OF a] m)
qed

lemma leet_length_lowercase:
  "304 \<notin> set t \<Longrightarrow>
   length (leetspeak_variations t) = prod_list (map num_candidates (lowercase t))"
proof -
  assume a: "304 \<notin> set t"
  then have m: "map num_position_candidates t = map (\<lambda>c. num_candidates (hd (lower c))) t"
    by (auto intro!: num_position_candidates_single)
  show ?thesis
    by (simp only: leet_length lowercase_single[OF a] m)
qed

lemma leet_within:
  "leetspeak_variations_within frames t
   = (if length t < frames then Inr (leetspeak_variations t) else Inl RecursionError)"
  by (induction frames t rule: leetspeak_variations_within.induct)
    (auto simp: Let_def split: option.splits)

text \<open>
  Claim C4, as the code has it. The list returned by \<open>leetspeak_variations\<close> has no
  duplicates. Its length, which is also the size of the set of its elements, is the
  product over the characters of the input of the number of candidates of each position:
  the length of the table's list when the lowercase form of the character is a tabulated
  letter, 1 otherwise, also when the lowercase form is more than one code point. On a
  string without U+0130 that is the product over the characters of the lowercased string.
  The expansion of the empty string is the empty string alone. The call returns this list
  when the interpreter admits more nested calls than the string has characters, and
  raises \<open>RecursionError\<close> when it does not.
\<close>

theorem leetspeak_variations_size:
  "distinct (leetspeak_variations t)
   \<and> length (leetspeak_variations t) = prod_list (map num_position_candidates t)
   \<and> card (set (leetspeak_variations t)) = prod_list (map num_position_candidates t)
   \<and> (304 \<notin> set t \<longrightarrow>
        length (leetspeak_variations t) = prod_list (map num_candidates (lowercase t)))
   \<and> leetspeak_variations [] = [[]]
   \<and> leetspeak_variations_within frames t
       = (if length t < frames then Inr (leetspeak_variations t) else Inl RecursionError)"
  using leet_distinct[of t] leet_length[of t] leet_length_lowercase[of t] leet_within[of frames t]
  by (simp add: distinct_card)

theorem leetspeak_variations_size_witness:
  "304 \<notin> set (str ''Bob'')
   \<and> distinct (leetspeak_variations (str ''Bob''))
   \<and> length (leetspeak_variations (str ''Bob'')) = 8
   \<and> card (set (leetspeak_variations (str ''Bob''))) = 8
   \<and> leetspeak_variations_within 4 (str ''Bob'') = Inr (leetspeak_variations (str ''Bob''))"
proof -
  have a: "304 \<notin> set (str ''Bob'')"
    by (simp add: str_def)
  have b: "prod_list (map num_candidates (lowercase (str ''Bob''))) = 8"
    by code_simp
  have c: "length (str ''Bob'') < 4"
    by (simp add: str_def)
  show ?thesis
    using leetspeak_variations_size[of "str ''Bob''" 4] a b c by simp
qed

text \<open>
  Claim C4, as stated, fails on the string of the one character U+0130, the capital I
  with a dot above: its lowercase form is \<open>i\<close> followed by the combining dot U+0307, so the
  product over the characters of the lowercased string is 3 times 1, and the code
  returns one string.
\<close>

theorem leetspeak_variations_dotted_I_counterexample:
  "leetspeak_variations [304] = [[105, 775]]
   \<and> lowercase [304] = [105, 775]
   \<and> prod_list (map num_candidates (lowercase [304])) = 3"
  by code_simp

section \<open>The mutation engine computes the specified set\<close>

lemma join_strs:
  "list_all is_str combo \<Longrightarrow> join symbol combo = Inr (joined_form symbol (map str_of combo))"
  by (induction symbol combo rule: join.induct) auto

lemma joined_form_no_symbol: "symbol = [] \<Longrightarrow> joined_form symbol ts = concat ts"
  by (induction symbol ts rule: joined_form.induct) auto

lemma for_each_union:
  assumes "\<And>x m. x \<in> set xs \<Longrightarrow> body x m = Inr (m \<union> F x)"
  shows "for_each xs body m = Inr (m \<union> (\<Union>x\<in>set xs. F x))"
  using assms
proof (induction xs arbitrary: m)
  case Nil
  then show ?case by simp
next
  case (Cons x xs)
  have "for_each (x # xs) body m = for_each xs body (m \<union> F x)"
    by (simp add: Cons.prems)
  also have "\<dots> = Inr ((m \<union> F x) \<union> (\<Union>x\<in>set xs. F x))"
    by (rule Cons.IH) (simp add: Cons.prems)
  finally show ?case by (simp add: Un_assoc)
qed

lemma add_years_strs:
  assumes "list_all is_str years"
  shows "add_years w years m = Inr (m \<union> affixed (map str_of years) {w})"
proof -
  have "add_years w years m = Inr (m \<union> (\<Union>y\<in>set years. {w @ str_of y, str_of y @ w}))"
    unfolding add_years_def
  proof (rule for_each_union)
    fix y m assume "y \<in> set years"
    with assms have "is_str y" by (simp add: list_all_iff)
    then obtain s where "y = PyStr s" by (cases y) auto
    then show "(case str_add w y of Inl e \<Rightarrow> Inl e
          | Inr appended \<Rightarrow>
              (case add_str y w of Inl e \<Rightarrow> Inl e
               | Inr prepended \<Rightarrow> Inr (insert prepended (insert appended m))))
        = Inr (m \<union> {w @ str_of y, str_of y @ w})"
      by auto
  qed
  then show ?thesis by (simp add: affixed_def)
qed

lemma add_joined_strs:
  assumes "list_all is_str combo" "list_all is_str years"
  shows "add_joined combo years m
   = Inr (m \<union> (\<lambda>symbol. joined_form symbol (map str_of combo)) ` set JOIN_SYMBOLS
          \<union> affixed (map str_of years)
              ((\<lambda>symbol. joined_form symbol (map str_of combo)) ` set JOIN_SYMBOLS))"
proof -
  let ?j = "\<lambda>symbol. joined_form symbol (map str_of combo)"
  have "add_joined combo years m
      = Inr (m \<union> (\<Union>symbol\<in>set JOIN_SYMBOLS. {?j symbol} \<union> affixed (map str_of years) {?j symbol}))"
    unfolding add_joined_def
    by (rule for_each_union) (simp add: join_strs[OF assms(1)] add_years_strs[OF assms(2)])
  also have "(\<Union>symbol\<in>set JOIN_SYMBOLS. {?j symbol} \<union> affixed (map str_of years) {?j symbol})
      = ?j ` set JOIN_SYMBOLS \<union> affixed (map str_of years) (?j ` set JOIN_SYMBOLS)"
    by (auto simp: affixed_def)
  finally show ?thesis by (simp add: Un_assoc)
qed

lemma for_each_variants:
  assumes "list_all is_str combo" "list_all is_str years" "vs \<noteq> []"
  shows "for_each vs
     (\<lambda>variant m. case add_years variant years (insert variant m) of
                     Inl e \<Rightarrow> Inl e
                   | Inr m' \<Rightarrow> add_joined combo years m') {}
   = Inr (set vs \<union> affixed (map str_of years) (set vs)
               \<union> (\<lambda>symbol. joined_form symbol (map str_of combo)) ` set JOIN_SYMBOLS
               \<union> affixed (map str_of years)
                   ((\<lambda>symbol. joined_form symbol (map str_of combo)) ` set JOIN_SYMBOLS))"
proof -
  let ?J = "(\<lambda>symbol. joined_form symbol (map str_of combo)) ` set JOIN_SYMBOLS"
  let ?Y = "map str_of years"
  have "for_each vs
     (\<lambda>variant m. case add_years variant years (insert variant m) of
                     Inl e \<Rightarrow> Inl e
                   | Inr m' \<Rightarrow> add_joined combo years m') {}
     = Inr ({} \<union> (\<Union>v\<in>set vs. {v} \<union> affixed ?Y {v} \<union> ?J \<union> affixed ?Y ?J))"
    by (rule for_each_union)
       (simp add: add_years_strs[OF assms(2)] add_joined_strs[OF assms(1,2)] Un_assoc)
  also have "(\<Union>v\<in>set vs. {v} \<union> affixed ?Y {v} \<union> ?J \<union> affixed ?Y ?J)
     = set vs \<union> affixed ?Y (set vs) \<union> ?J \<union> affixed ?Y ?J"
    using assms(3) by (cases vs) (auto simp: affixed_def)
  finally show ?thesis by simp
qed

lemma leet_nonempty: "leetspeak_variations t \<noteq> []"
proof
  assume "leetspeak_variations t = []"
  then have "card (set (leetspeak_variations t)) = 0"
    by simp
  moreover have "\<And>c. 0 < num_position_candidates c"
    by (auto simp: num_position_candidates_def num_candidates_def LEET_DICT_def str_def)
  then have "0 < prod_list (map num_position_candidates t)"
    by (induction t) auto
  ultimately show False
    using leet_length[of t] leet_distinct[of t] by (simp add: distinct_card)
qed

text \<open>The result of \<open>process_combo\<close> on strings, with the list of the code as the expander.\<close>

lemma process_combo_sets:
  assumes "list_all is_str combo" "list_all is_str years"
  shows "process_combo combo years
   = Inr (mutate_with (\<lambda>word. set (leetspeak_variations word))
            (map str_of combo) (map str_of years))"
  unfolding process_combo_def mutate_with_def
  by (simp add: join_strs[OF assms(1)] joined_form_no_symbol Let_def
        for_each_variants[OF assms] leet_nonempty)

lemma process_combo_strs:
  assumes "list_all is_str combo" "list_all is_str years"
  shows "process_combo combo years
   = Inr (mutate_with expand_positions (map str_of combo) (map str_of years))"
  using process_combo_sets[OF assms] by (simp add: leet_set)

lemma mutate_positions:
  assumes "304 \<notin> set (concat combo) \<or> 12 < length (concat combo)"
  shows "mutate_with expand_positions combo years = mutate combo years"
proof (cases "12 < length (concat combo)")
  case True
  then show ?thesis
    by (simp add: mutate_def mutate_with_def)
next
  case False
  with assms have "expand_positions (concat combo) = expand (concat combo)"
    by (simp add: expand_positions_expand)
  then show ?thesis
    by (simp add: mutate_def mutate_with_def Let_def)
qed

lemma join_non_str: "\<not> list_all is_str combo \<Longrightarrow> join symbol combo = Inl TypeError"
  by (induction symbol combo rule: join.induct) auto

lemma add_years_non_str: "\<not> list_all is_str years \<Longrightarrow> add_years w years m = Inl TypeError"
  unfolding add_years_def
proof (induction years arbitrary: m)
  case Nil
  then show ?case by simp
next
  case (Cons y ys)
  then show ?case by (cases y) auto
qed

lemma process_combo_non_str:
  assumes "\<not> (list_all is_str combo \<and> list_all is_str years)"
  shows "process_combo combo years = Inl TypeError"
proof (cases "list_all is_str combo")
  case False
  then show ?thesis by (simp add: process_combo_def join_non_str)
next
  case True
  with assms have y: "\<not> list_all is_str years" by simp
  obtain v vs where "leetspeak_variations (joined_form [] (map str_of combo)) = v # vs"
    using leet_nonempty by (cases "leetspeak_variations (joined_form [] (map str_of combo))") auto
  then show ?thesis
    by (simp add: process_combo_def join_strs[OF True] add_years_non_str[OF y])
qed

lemma str_append: "str a @ str b = str (a @ b)"
  by (simp add: str_def)

lemma leet_identity:
  "\<forall>c\<in>set t. lower c = [c] \<and> LEET_DICT [c] = None \<Longrightarrow> leetspeak_variations t = [t]"
  by (induction t) (auto simp: Let_def)

text \<open>
  Claim C3, as the code has it. On a combination and a year list of strings,
  \<open>process_combo\<close> returns exactly the set of the specification's algorithm, where the leet
  expansion of a base word of at most 12 characters is the product of the candidates
  across the positions of the base word itself, each character being lowercased on its
  own: the leet variants, every symbol-joined form, and each of these with each year
  appended and prepended. With no years the affixed words are absent. When the base word
  has no U+0130, or is longer than 12 characters, that is the set of the algorithm with
  the expansion of the lowercased base word, as the specification states it.
\<close>

theorem process_combo_spec:
  assumes "list_all is_str combo" "list_all is_str years"
  shows "process_combo combo years
           = Inr (mutate_with expand_positions (map str_of combo) (map str_of years))
         \<and> (304 \<notin> set (concat (map str_of combo)) \<or> 12 < length (concat (map str_of combo))
              \<longrightarrow> process_combo combo years
                   = Inr (mutate (map str_of combo) (map str_of years)))"
  using process_combo_strs[OF assms] mutate_positions[of "map str_of combo" "map str_of years"]
  by simp

theorem process_combo_spec_witness:
  "process_combo [PyStr (str ''al''), PyStr (str ''99'')] [PyStr (str ''2020'')]
   = Inr (mutate [str ''al'', str ''99''] [str ''2020''])
   \<and> process_combo [PyStr (str ''al''), PyStr (str ''99'')] []
   = Inr (mutate [str ''al'', str ''99''] [])
   \<and> {str ''al99'', str ''@199'', str ''al_99'', str ''al992020'', str ''2020al99'',
       str ''al_992020''} \<subseteq> mutate [str ''al'', str ''99''] [str ''2020'']
   \<and> str ''al_992020'' \<notin> mutate [str ''al'', str ''99''] []"
proof -
  have "process_combo [PyStr (str ''al''), PyStr (str ''99'')] [PyStr (str ''2020'')]
      = Inr (mutate [str ''al'', str ''99''] [str ''2020''])"
    using process_combo_spec[of "[PyStr (str ''al''), PyStr (str ''99'')]"
        "[PyStr (str ''2020'')]", THEN conjunct2]
    by (simp add: str_def)
  moreover have "process_combo [PyStr (str ''al''), PyStr (str ''99'')] []
      = Inr (mutate [str ''al'', str ''99''] [])"
    using process_combo_spec[of "[PyStr (str ''al''), PyStr (str ''99'')]" "[]", THEN conjunct2]
    by (simp add: str_def)
  moreover have "{str ''al99'', str ''@199'', str ''al_99'', str ''al992020'', str ''2020al99'',
       str ''al_992020''} \<subseteq> mutate [str ''al'', str ''99''] [str ''2020'']"
    by code_simp
  moreover have "str ''al_992020'' \<notin> mutate [str ''al'', str ''99''] []"
    by code_simp
  ultimately show ?thesis
    by blast
qed

text \<open>
  Claim C3, as stated, fails on the combination of the one token U+0130 with no years.
  The lowercased base word is \<open>i\<close> followed by the combining dot U+0307, whose full
  expansion has the three variants that begin with \<open>i\<close>, \<open>1\<close> and \<open>!\<close>; the code returns the
  lowercase form and the token only.
\<close>

theorem process_combo_dotted_I_counterexample:
  "process_combo [PyStr [304]] [] = Inr {[105, 775], [304]}
   \<and> mutate [[304]] [] = {[105, 775], [49, 775], [33, 775], [304]}
   \<and> process_combo [PyStr [304]] [] \<noteq> Inr (mutate [[304]] [])"
  by code_simp

text \<open>
  Claim C8. For a combination of one token, every join symbol gives the token itself, so
  the result is the leet variants and the token, with their year affixes, whatever the
  symbols are; for a lowercase token without a letter of the leet table and no years, the
  result is the token alone.
\<close>

theorem single_token_join:
  "join symbol [PyStr t] = Inr t
   \<and> (list_all is_str years \<longrightarrow>
        process_combo [PyStr t] years =
          Inr (let words = (if length t \<le> 12 then set (leetspeak_variations t) else {t}) \<union> {t}
               in words \<union> affixed (map str_of years) words))
   \<and> ((\<forall>c\<in>set t. lower c = [c] \<and> LEET_DICT [c] = None) \<longrightarrow> process_combo [PyStr t] [] = Inr {t})"
proof (intro conjI impI)
  show "join symbol [PyStr t] = Inr t" by simp
next
  assume y: "list_all is_str years"
  have j: "(\<lambda>symbol::pystr. t) ` set JOIN_SYMBOLS = {t}"
    by (simp add: JOIN_SYMBOLS_def)
  have "process_combo [PyStr t] years
      = Inr (mutate_with (\<lambda>word. set (leetspeak_variations word)) [t] (map str_of years))"
    using process_combo_sets[of "[PyStr t]" years] y by simp
  also have "mutate_with (\<lambda>word. set (leetspeak_variations word)) [t] (map str_of years) =
          (let words = (if length t \<le> 12 then set (leetspeak_variations t) else {t}) \<union> {t}
               in words \<union> affixed (map str_of years) words)"
    by (auto simp: mutate_with_def j Let_def affixed_def)
  finally show "process_combo [PyStr t] years =
          Inr (let words = (if length t \<le> 12 then set (leetspeak_variations t) else {t}) \<union> {t}
               in words \<union> affixed (map str_of years) words)" .
next
  assume a: "\<forall>c\<in>set t. lower c = [c] \<and> LEET_DICT [c] = None"
  have j: "(\<lambda>symbol::pystr. t) ` set JOIN_SYMBOLS = {t}"
    by (simp add: JOIN_SYMBOLS_def)
  have "process_combo [PyStr t] []
      = Inr (mutate_with (\<lambda>word. set (leetspeak_variations word)) [t] [])"
    using process_combo_sets[of "[PyStr t]" "[]"] by simp
  then show "process_combo [PyStr t] [] = Inr {t}"
    by (simp add: mutate_with_def j leet_identity[OF a] affixed_def)
qed

theorem single_token_join_witness:
  "join (str ''@'') [PyStr (str ''xq'')] = Inr (str ''xq'')
   \<and> process_combo [PyStr (str ''xq'')] [] = Inr {str ''xq''}
   \<and> process_combo [PyStr (str ''xq'')] [PyStr (str ''99'')]
       = Inr {str ''xq'', str ''xq99'', str ''99xq''}"
proof -
  have a: "\<forall>c\<in>set (str ''xq''). lower c = [c] \<and> LEET_DICT [c] = None"
    by code_simp
  have b: "leetspeak_variations (str ''xq'') = [str ''xq'']"
    using a by (rule leet_identity)
  show ?thesis
    using single_token_join[of "str ''@''" "str ''xq''" "[PyStr (str ''99'')]"] a
    by (auto simp: b affixed_def str_append)
qed

text \<open>
  Claim C9. Whenever \<open>process_combo\<close> runs on strings, its result contains the plain
  concatenation of the tokens in their original case, through the empty join symbol: also
  when the leet variants, computed on lowercased characters, do not contain it, and when
  the base word is longer than 12 characters.
\<close>

theorem plain_concatenation_kept:
  assumes "list_all is_str combo" "list_all is_str years"
  shows "\<exists>words. process_combo combo years = Inr words \<and> concat (map str_of combo) \<in> words"
proof -
  have "joined_form [] (map str_of combo) \<in>
        (\<lambda>symbol. joined_form symbol (map str_of combo)) ` set JOIN_SYMBOLS"
    by (simp add: JOIN_SYMBOLS_def)
  then have "concat (map str_of combo)
      \<in> mutate_with expand_positions (map str_of combo) (map str_of years)"
    by (simp add: mutate_with_def Let_def joined_form_no_symbol)
  with process_combo_strs[OF assms] show ?thesis by simp
qed

theorem plain_concatenation_kept_witness:
  "(\<exists>words. process_combo [PyStr (str ''Bob''), PyStr (str ''Smith'')] [PyStr (str ''1999'')]
         = Inr words
       \<and> str ''BobSmith'' \<in> words)
   \<and> (\<exists>words. process_combo [PyStr (str ''Alexander''), PyStr (str ''Hamilton'')] [] = Inr words
       \<and> str ''AlexanderHamilton'' \<in> words)
   \<and> str ''BobSmith'' \<notin> set (leetspeak_variations (str ''BobSmith''))"
proof -
  have "str ''BobSmith'' \<notin> set (leetspeak_variations (str ''BobSmith''))"
    by code_simp
  then show ?thesis
    using plain_concatenation_kept[of "[PyStr (str ''Bob''), PyStr (str ''Smith'')]"
        "[PyStr (str ''1999'')]"]
      plain_concatenation_kept[of "[PyStr (str ''Alexander''), PyStr (str ''Hamilton'')]" "[]"]
    by (simp add: str_append)
qed

section \<open>The combination enumerator: sizes, count and exactness\<close>

lemma length_combinations: "length (combinations xs r) = length xs choose r"
  by (induction xs r rule: combinations.induct) auto

lemma combinations_map: "combinations (map f xs) r = map (map f) (combinations xs r)"
  by (induction xs r rule: combinations.induct) auto

lemma set_combinations:
  "set (combinations xs r) = {ys. subseq ys xs \<and> length ys = r}"
proof (induction xs r rule: combinations.induct)
  case (1 xs)
  then show ?case by auto
next
  case (2 r)
  then show ?case by auto
next
  case (3 x xs r)
  show ?case
  proof (intro set_eqI iffI)
    fix ys assume "ys \<in> set (combinations (x # xs) (Suc r))"
    then show "ys \<in> {ys. subseq ys (x # xs) \<and> length ys = Suc r}"
      using 3 by auto
  next
    fix ys assume a: "ys \<in> {ys. subseq ys (x # xs) \<and> length ys = Suc r}"
    then obtain y zs where ys: "ys = y # zs" "length zs = r" by (cases ys) auto
    show "ys \<in> set (combinations (x # xs) (Suc r))"
    proof (cases "y = x")
      case True
      with a ys have "subseq zs xs" by simp
      with ys True 3 show ?thesis by auto
    next
      case False
      with a ys have "subseq ys xs" by simp
      with a 3 show ?thesis by auto
    qed
  qed
qed

lemma distinct_combinations: "distinct xs \<Longrightarrow> distinct (combinations xs r)"
proof (induction xs r rule: combinations.induct)
  case (3 x xs r)
  have "\<And>c. c \<in> set (combinations xs (Suc r)) \<Longrightarrow> x \<notin> set c"
  proof -
    fix c assume "c \<in> set (combinations xs (Suc r))"
    then have "subseq c xs" by (simp add: set_combinations)
    then have "set c \<subseteq> set xs" by (auto dest: list_emb_set)
    with 3 show "x \<notin> set c" by auto
  qed
  then have "set (map (\<lambda>c. x # c) (combinations xs r)) \<inter> set (combinations xs (Suc r)) = {}"
    by fastforce
  with 3 show ?case by (simp add: distinct_map)
qed auto

lemma length_combos_of:
  "length (combos_of words) = (\<Sum>r = 1..min 5 (length words). length words choose r)"
proof -
  have "length (combos_of words)
      = (\<Sum>r\<leftarrow>[1..<min 6 (length words + 1)]. length words choose r)"
    by (simp add: combos_of_def length_concat comp_def length_combinations)
  also have "\<dots> = (\<Sum>r\<in>set [1..<min 6 (length words + 1)]. length words choose r)"
    by (rule sum_list_distinct_conv_sum_set) simp
  also have "set [1..<min 6 (length words + 1)] = {1..min 5 (length words)}"
    by auto
  finally show ?thesis .
qed

lemma set_combos_of:
  "set (combos_of xs) = {ys. subseq ys xs \<and> 1 \<le> length ys \<and> length ys \<le> min 5 (length xs)}"
  by (auto simp: combos_of_def set_combinations)

lemma distinct_concat_by_length:
  assumes "\<And>r. distinct (f r)" "\<And>r ys. ys \<in> set (f r) \<Longrightarrow> length ys = r"
  shows "distinct (concat (map f [a..<b]))"
proof (induction b)
  case 0
  then show ?case by simp
next
  case (Suc b)
  show ?case
  proof (cases "a \<le> b")
    case True
    have "\<And>ys. ys \<in> set (concat (map f [a..<b])) \<Longrightarrow> length ys < b"
      using assms(2) by auto
    then have "set (concat (map f [a..<b])) \<inter> set (f b) = {}"
      using assms(2) by fastforce
    with True Suc assms(1) show ?thesis by simp
  next
    case False
    then show ?thesis by simp
  qed
qed

lemma distinct_combos_of: "distinct xs \<Longrightarrow> distinct (combos_of xs)"
  unfolding combos_of_def
  by (rule distinct_concat_by_length) (auto simp: distinct_combinations set_combinations)

lemma combos_of_map: "combos_of (map f xs) = map (map f) (combos_of xs)"
  by (simp add: combos_of_def combinations_map map_concat comp_def)

lemma combos_of_positions:
  "combos_of words = map (map ((!) words)) (combos_of [0..<length words])"
  using combos_of_map[of "(!) words" "[0..<length words]"] by (simp add: map_nth)

lemma total_combos_eq: "total_combos words = length (combos_of words)"
  by (simp add: total_combos_def combos_of_def length_concat comp_def)

text \<open>
  Claim C1, as the code has it. \<open>range(1, min(6, len(words)+1))\<close> stops before 6, so the
  sizes are 1 to \<open>min 5 N\<close>. The number of combinations is the sum of the binomial
  coefficients over these sizes, which is also the count that \<open>main\<close> prints. A
  combination is a choice of positions: the list of combinations is the image of the
  combinations of the positions, and every strictly increasing choice of 1 to \<open>min 5 N\<close>
  positions occurs in it exactly once.
\<close>

theorem combos_of_enumeration:
  "length (combos_of words) = (\<Sum>r = 1..min 5 (length words). length words choose r)
   \<and> total_combos words = length (combos_of words)
   \<and> combos_of words = map (map ((!) words)) (combos_of [0..<length words])
   \<and> distinct (combos_of [0..<length words])
   \<and> set (combos_of [0..<length words])
       = {ps. subseq ps [0..<length words] \<and> 1 \<le> length ps \<and> length ps \<le> min 5 (length words)}"
  using length_combos_of[of words] total_combos_eq[of words] combos_of_positions[of words]
    distinct_combos_of[of "[0..<length words]"] set_combos_of[of "[0..<length words]"]
  by simp

theorem combos_of_enumeration_witness:
  "length (combos_of [PyStr (str ''al''), PyStr (str ''99'')]) = 3
   \<and> combos_of [PyStr (str ''al''), PyStr (str ''99'')]
       = [[PyStr (str ''al'')], [PyStr (str ''99'')], [PyStr (str ''al''), PyStr (str ''99'')]]
   \<and> distinct (combos_of [0..<length [PyStr (str ''al''), PyStr (str ''99'')]])"
proof -
  have "combos_of [PyStr (str ''al''), PyStr (str ''99'')]
       = [[PyStr (str ''al'')], [PyStr (str ''99'')], [PyStr (str ''al''), PyStr (str ''99'')]]"
    by code_simp
  then show ?thesis
    using combos_of_enumeration[of "[PyStr (str ''al''), PyStr (str ''99'')]"] by simp
qed

text \<open>
  Claim C1, as stated, fails on six tokens: 62 combinations are produced, where the sum of
  the binomial coefficients for the sizes 1 to \<open>min 6 6 = 6\<close> is 63; the combination of all
  six tokens is missing.
\<close>

theorem combos_of_six_counterexample:
  "length (combos_of [PyStr (str ''a''), PyStr (str ''b''), PyStr (str ''c''), PyStr (str ''d''), PyStr (str ''e''), PyStr (str ''f'')])
     = 62
   \<and> (6 choose 1) + (6 choose 2) + (6 choose 3) + (6 choose 4) + (6 choose 5) + (6 choose 6)
     = (63::nat)
   \<and> min 6 (length [PyStr (str ''a''), PyStr (str ''b''), PyStr (str ''c''), PyStr (str ''d''), PyStr (str ''e''), PyStr (str ''f'')]) = 6
   \<and> [PyStr (str ''a''), PyStr (str ''b''), PyStr (str ''c''), PyStr (str ''d''), PyStr (str ''e''), PyStr (str ''f'')]
      \<notin> set (combos_of [PyStr (str ''a''), PyStr (str ''b''), PyStr (str ''c''), PyStr (str ''d''), PyStr (str ''e''), PyStr (str ''f'')])"
  by code_simp

section \<open>The coordinator: what every run computes\<close>

lemma processed_run_unit:
  "processed (run_unit years u w) = processed w + (if succeeds years (snd u) then 1 else 0)"
  by (simp add: run_unit_def wrapped_process_def succeeds_def split: sum.splits)

lemma futures_run_unit:
  "futures (run_unit years u w) = (futures w)(fst u \<mapsto> process_combo (snd u) years)"
  by (simp add: run_unit_def wrapped_process_def split: sum.splits)

lemma processed_run_workers:
  "processed (run_workers years sched w)
   = processed w + length (filter (\<lambda>u. succeeds years (snd u)) sched)"
  unfolding run_workers_def
  by (induction sched arbitrary: w) (simp_all add: processed_run_unit)

lemma futures_untouched:
  "i \<notin> fst ` set sched \<Longrightarrow> futures (run_workers years sched w) i = futures w i"
  unfolding run_workers_def
  by (induction sched arbitrary: w) (simp_all add: futures_run_unit)

lemma futures_run_workers:
  "distinct (map fst sched) \<Longrightarrow> (i, c) \<in> set sched \<Longrightarrow>
   futures (run_workers years sched w) i = Some (process_combo c years)"
proof (induction sched arbitrary: w)
  case Nil
  then show ?case by simp
next
  case (Cons u sched)
  show ?case
  proof (cases "u = (i, c)")
    case True
    with Cons.prems have "i \<notin> fst ` set sched" by auto
    then have "futures (run_workers years sched (run_unit years u w)) i
             = futures (run_unit years u w) i"
      by (rule futures_untouched)
    with True show ?thesis by (simp add: run_workers_def futures_run_unit)
  next
    case False
    with Cons.prems have "(i, c) \<in> set sched" "distinct (map fst sched)" by auto
    then have "futures (run_workers years sched (run_unit years u w)) i
             = Some (process_combo c years)"
      using Cons.IH by blast
    then show ?thesis by (simp add: run_workers_def)
  qed
qed

lemma collect_all:
  "\<forall>u\<in>set us. futs (fst u) = Some (process_combo (snd u) years) \<Longrightarrow>
   collect futs us c
   = Some \<lparr>final_words = final_words c \<union> union_of_results years (map snd us),
           pbar = pbar c + length (filter (succeeds years) (map snd us)),
           reported = reported c @ failure_lines years (map snd us)\<rparr>"
proof (induction us arbitrary: c)
  case Nil
  then show ?case by (simp add: union_of_results_def failure_lines_def)
next
  case (Cons u us)
  then have f: "futs (fst u) = Some (process_combo (snd u) years)"
    and r: "\<forall>u\<in>set us. futs (fst u) = Some (process_combo (snd u) years)" by auto
  show ?case
  proof (cases "process_combo (snd u) years")
    case (Inl e)
    then show ?thesis
      using f Cons.IH[OF r]
      by (simp add: union_of_results_def failure_lines_def succeeds_def)
  next
    case (Inr result)
    then show ?thesis
      using f Cons.IH[OF r]
      by (simp add: union_of_results_def failure_lines_def succeeds_def Un_assoc)
  qed
qed

lemma schedule_set: "schedule_of words sched \<Longrightarrow> set sched = set (units_of words)"
  unfolding schedule_of_def by (rule mset_eq_setD)

lemma schedule_distinct: "schedule_of words sched \<Longrightarrow> distinct (map fst sched)"
proof -
  assume a: "schedule_of words sched"
  then have "mset (map fst sched) = mset (map fst (units_of words))"
    unfolding schedule_of_def by (metis mset_map)
  moreover have "distinct (map fst (units_of words))"
    by (simp add: units_of_def)
  ultimately show ?thesis by (metis mset_eq_imp_distinct_iff)
qed

lemma schedule_count:
  "schedule_of words sched \<Longrightarrow>
   length (filter P sched) = length (filter P (units_of words))"
  unfolding schedule_of_def by (metis mset_filter size_mset)

lemma snd_units_of: "map snd (units_of words) = combos_of words"
  by (simp add: units_of_def)

lemma filter_snd_length:
  "length (filter (\<lambda>u. P (snd u)) us) = length (filter P (map snd us))"
  by (induction us) auto

lemma generate_wordlist_run:
  assumes "schedule_of words sched"
  shows "generate_wordlist sched words years
   = Some \<lparr>wordlist = union_of_results years (combos_of words),
           estimated_total = length (combos_of words),
           processed_units = length (filter (succeeds years) (combos_of words)),
           progress = length (filter (succeeds years) (combos_of words)),
           failures = failure_lines years (combos_of words)\<rparr>"
proof -
  let ?w = "run_workers years sched \<lparr>processed = 0, futures = Map.empty\<rparr>"
  have "\<forall>u\<in>set (units_of words). futures ?w (fst u) = Some (process_combo (snd u) years)"
  proof
    fix u assume "u \<in> set (units_of words)"
    then have "(fst u, snd u) \<in> set sched" using schedule_set[OF assms] by simp
    then show "futures ?w (fst u) = Some (process_combo (snd u) years)"
      using schedule_distinct[OF assms] by (rule futures_run_workers[rotated])
  qed
  from collect_all[OF this, of "\<lparr>final_words = {}, pbar = 0, reported = []\<rparr>"]
  have c: "collect (futures ?w) (units_of words) \<lparr>final_words = {}, pbar = 0, reported = []\<rparr>
      = Some \<lparr>final_words = union_of_results years (combos_of words),
           pbar = length (filter (succeeds years) (combos_of words)),
           reported = failure_lines years (combos_of words)\<rparr>"
    by (simp add: snd_units_of)
  have "processed ?w = length (filter (\<lambda>u. succeeds years (snd u)) (units_of words))"
    by (simp only: processed_run_workers schedule_count[OF assms]) simp
  also have "\<dots> = length (filter (succeeds years) (map snd (units_of words)))"
    by (rule filter_snd_length)
  finally have p: "processed ?w = length (filter (succeeds years) (combos_of words))"
    by (simp only: snd_units_of)
  show ?thesis
    using c p by (simp add: generate_wordlist_def Let_def units_of_def)
qed

lemma failures_and_successes:
  "length (failure_lines years cs) + length (filter (succeeds years) cs) = length cs"
  by (induction cs) (auto simp: failure_lines_def succeeds_def split: sum.splits)

lemma failure_lines_empty_iff:
  "failure_lines years cs = [] \<longleftrightarrow> length (filter (succeeds years) cs) = length cs"
  using failures_and_successes[of years cs] by auto

lemma union_of_results_eq:
  "union_of_results years cs = \<Union> {result. \<exists>c\<in>set cs. process_combo c years = Inr result}"
  by (auto simp: union_of_results_def split: sum.splits) force

lemma set_failure_lines:
  "set (failure_lines years cs) = {(c, e). c \<in> set cs \<and> process_combo c years = Inl e}"
  by (auto simp: failure_lines_def split: sum.splits)

lemma collect_keeps:
  "collect futs us c = Some c' \<Longrightarrow>
   final_words c \<subseteq> final_words c' \<and> prefix (reported c) (reported c')"
proof (induction us arbitrary: c)
  case Nil
  then show ?case by simp
next
  case (Cons u us)
  show ?case
  proof (cases "futs (fst u)")
    case None
    with Cons.prems show ?thesis by simp
  next
    case (Some out)
    show ?thesis
    proof (cases out)
      case (Inl e)
      with Some Cons.prems
      have "collect futs us (c\<lparr>reported := reported c @ [(snd u, e)]\<rparr>) = Some c'" by simp
      from Cons.IH[OF this] show ?thesis by (auto dest: append_prefixD)
    next
      case (Inr result)
      with Some Cons.prems
      have "collect futs us (c\<lparr>final_words := final_words c \<union> result, pbar := pbar c + 1\<rparr>)
            = Some c'" by simp
      from Cons.IH[OF this] show ?thesis by auto
    qed
  qed
qed

lemma schedule_of_empty: "schedule_of [] sched \<Longrightarrow> sched = []"
  by (simp add: schedule_of_def units_of_def combos_of_def)

text \<open>
  Claim C2, as the code has it. \<open>wrapped_process\<close> increments the counter once for a unit
  that succeeds and not at all for a unit that raises, and the progress bar moves the same
  way. Every run returns; at its end the counter and the bar equal the number of units that
  succeeded, the counter and the number of error lines add up to the number of units
  submitted, and the counter equals that number exactly when no unit failed.
\<close>

theorem progress_counts_successes:
  assumes "schedule_of words sched"
  shows "processed (run_unit years u w)
           = processed w + (if succeeds years (snd u) then 1 else 0)
     \<and> (\<exists>r. generate_wordlist sched words years = Some r
          \<and> estimated_total r = length (combos_of words)
          \<and> processed_units r = length (filter (succeeds years) (combos_of words))
          \<and> progress r = processed_units r
          \<and> processed_units r + length (failures r) = estimated_total r
          \<and> (processed_units r = estimated_total r \<longleftrightarrow> failures r = []))"
  using generate_wordlist_run[OF assms, of years] failures_and_successes[of years "combos_of words"]
    failure_lines_empty_iff[of years "combos_of words"]
  by (simp add: processed_run_unit)

theorem progress_counts_successes_witness:
  "\<exists>r. generate_wordlist [(2, [PyStr (str ''al''), PyNone]), (0, [PyStr (str ''al'')]), (1, [PyNone])]
          [PyStr (str ''al''), PyNone] [] = Some r
       \<and> estimated_total r = 3 \<and> processed_units r = 1 \<and> progress r = 1
       \<and> length (failures r) = 2"
proof -
  have c: "combos_of [PyStr (str ''al''), PyNone] = [[PyStr (str ''al'')], [PyNone], [PyStr (str ''al''), PyNone]]"
    by code_simp
  have s: "schedule_of [PyStr (str ''al''), PyNone]
     [(2, [PyStr (str ''al''), PyNone]), (0, [PyStr (str ''al'')]), (1, [PyNone])]"
    by (simp add: schedule_of_def units_of_def c)
  have n: "length (filter (succeeds []) [[PyStr (str ''al'')], [PyNone], [PyStr (str ''al''), PyNone]]) = 1"
    by code_simp
  have "\<exists>r. generate_wordlist [(2, [PyStr (str ''al''), PyNone]), (0, [PyStr (str ''al'')]), (1, [PyNone])]
          [PyStr (str ''al''), PyNone] [] = Some r
       \<and> estimated_total r = length (combos_of [PyStr (str ''al''), PyNone])
       \<and> processed_units r = length (filter (succeeds []) (combos_of [PyStr (str ''al''), PyNone]))
       \<and> progress r = processed_units r
       \<and> processed_units r + length (failures r) = estimated_total r"
    using progress_counts_successes[OF s, of "[]" "(0, [])" "\<lparr>processed = 0, futures = Map.empty\<rparr>"]
    by blast
  then obtain r where r: "generate_wordlist [(2, [PyStr (str ''al''), PyNone]), (0, [PyStr (str ''al'')]), (1, [PyNone])]
          [PyStr (str ''al''), PyNone] [] = Some r"
      "estimated_total r = 3" "processed_units r = 1" "progress r = processed_units r"
      "processed_units r + length (failures r) = estimated_total r"
    unfolding c n by auto
  then have "length (failures r) = 2" by simp
  with r show ?thesis by simp
qed

text \<open>
  Claim C2, as stated, fails on the token list \<open>[None]\<close>: its one unit raises, the run
  finishes with one unit submitted and the counter at 0.
\<close>

theorem progress_counter_counterexample:
  "schedule_of [PyNone] [(0, [PyNone])]
   \<and> generate_wordlist [(0, [PyNone])] [PyNone] []
       = Some \<lparr>wordlist = {}, estimated_total = 1, processed_units = 0, progress = 0,
               failures = [([PyNone], TypeError)]\<rparr>"
  by code_simp

lemma process_combo_finite: "process_combo combo years = Inr result \<Longrightarrow> finite result"
proof (cases "list_all is_str combo \<and> list_all is_str years")
  case True
  assume "process_combo combo years = Inr result"
  with True have "result = mutate_with (\<lambda>word. set (leetspeak_variations word))
      (map str_of combo) (map str_of years)"
    by (simp add: process_combo_sets)
  then show ?thesis
    by (simp add: mutate_with_def Let_def affixed_def)
next
  case False
  assume "process_combo combo years = Inr result"
  with False show ?thesis
    by (simp add: process_combo_non_str)
qed

lemma finite_union_of_results: "finite (union_of_results years cs)"
  by (auto simp: union_of_results_def process_combo_finite split: sum.splits)

text \<open>
  Claim C5. Any two schedules of the same run return the same result, and the word set of a
  run is the union of the sets returned by \<open>process_combo\<close> over the combinations whose unit
  succeeded. The set is finite: the list that the program returns holds each of its words
  once.
\<close>

theorem wordlist_is_union:
  assumes "schedule_of words sched" "schedule_of words sched'"
  shows "generate_wordlist sched words years = generate_wordlist sched' words years
     \<and> (\<exists>r. generate_wordlist sched words years = Some r
          \<and> wordlist r
              = \<Union> {result. \<exists>c\<in>set (combos_of words). process_combo c years = Inr result}
          \<and> finite (wordlist r))"
  using generate_wordlist_run[OF assms(1), of years] generate_wordlist_run[OF assms(2), of years]
    finite_union_of_results[of years "combos_of words"]
  by (simp add: union_of_results_eq)

theorem wordlist_is_union_witness:
  "generate_wordlist
       [(2, [PyStr (str ''x''), PyStr (str ''q'')]), (0, [PyStr (str ''x'')]),
        (1, [PyStr (str ''q'')])]
       [PyStr (str ''x''), PyStr (str ''q'')] []
   = generate_wordlist
       [(0, [PyStr (str ''x'')]), (1, [PyStr (str ''q'')]),
        (2, [PyStr (str ''x''), PyStr (str ''q'')])]
       [PyStr (str ''x''), PyStr (str ''q'')] []
   \<and> (\<exists>r. generate_wordlist
            [(2, [PyStr (str ''x''), PyStr (str ''q'')]), (0, [PyStr (str ''x'')]),
             (1, [PyStr (str ''q'')])]
            [PyStr (str ''x''), PyStr (str ''q'')] [] = Some r
          \<and> finite (wordlist r))"
proof -
  have c: "combos_of [PyStr (str ''x''), PyStr (str ''q'')]
         = [[PyStr (str ''x'')], [PyStr (str ''q'')], [PyStr (str ''x''), PyStr (str ''q'')]]"
    by code_simp
  have s: "schedule_of [PyStr (str ''x''), PyStr (str ''q'')]
     [(2, [PyStr (str ''x''), PyStr (str ''q'')]), (0, [PyStr (str ''x'')]),
      (1, [PyStr (str ''q'')])]"
    by (simp add: schedule_of_def units_of_def c)
  have s': "schedule_of [PyStr (str ''x''), PyStr (str ''q'')]
     [(0, [PyStr (str ''x'')]), (1, [PyStr (str ''q'')]),
      (2, [PyStr (str ''x''), PyStr (str ''q'')])]"
    by (simp add: schedule_of_def units_of_def c)
  show ?thesis
    using wordlist_is_union[OF s s', of "[]"] by blast
qed

text \<open>
  Claim C6. Whatever units fail, the run returns: its error lines are the failing
  combinations with their errors, one line per failing unit, and its word set is the union
  of the sets of the units that did not fail. The collecting loop never removes a word or
  an error line that it already holds.
\<close>

theorem failure_isolation:
  assumes "schedule_of words sched"
  shows "(\<exists>r. generate_wordlist sched words years = Some r
          \<and> set (failures r)
              = {(c, e). c \<in> set (combos_of words) \<and> process_combo c years = Inl e}
          \<and> length (failures r)
              = length (filter (\<lambda>c. \<not> succeeds years c) (combos_of words))
          \<and> wordlist r
              = \<Union> {result. \<exists>c\<in>set (combos_of words). process_combo c years = Inr result})
     \<and> (\<forall>futs us c c'. collect futs us c = Some c' \<longrightarrow>
            final_words c \<subseteq> final_words c' \<and> prefix (reported c) (reported c'))"
proof (rule conjI)
  have n: "length (failure_lines years (combos_of words))
      = length (filter (\<lambda>c. \<not> succeeds years c) (combos_of words))"
    using failures_and_successes[of years "combos_of words"]
      sum_length_filter_compl[of "succeeds years" "combos_of words"] by simp
  let ?r = "\<lparr>wordlist = union_of_results years (combos_of words),
           estimated_total = length (combos_of words),
           processed_units = length (filter (succeeds years) (combos_of words)),
           progress = length (filter (succeeds years) (combos_of words)),
           failures = failure_lines years (combos_of words)\<rparr>"
  have "generate_wordlist sched words years = Some ?r"
    using assms by (rule generate_wordlist_run)
  moreover have "set (failures ?r)
       = {(c, e). c \<in> set (combos_of words) \<and> process_combo c years = Inl e}"
    by (simp add: set_failure_lines)
  moreover have "length (failures ?r)
       = length (filter (\<lambda>c. \<not> succeeds years c) (combos_of words))"
    by (simp add: n)
  moreover have "wordlist ?r
       = \<Union> {result. \<exists>c\<in>set (combos_of words). process_combo c years = Inr result}"
    by (simp add: union_of_results_eq)
  ultimately show "\<exists>r. generate_wordlist sched words years = Some r
          \<and> set (failures r)
              = {(c, e). c \<in> set (combos_of words) \<and> process_combo c years = Inl e}
          \<and> length (failures r)
              = length (filter (\<lambda>c. \<not> succeeds years c) (combos_of words))
          \<and> wordlist r
              = \<Union> {result. \<exists>c\<in>set (combos_of words). process_combo c years = Inr result}"
    by blast
next
  show "\<forall>futs us c c'. collect futs us c = Some c' \<longrightarrow>
            final_words c \<subseteq> final_words c' \<and> prefix (reported c) (reported c')"
    using collect_keeps by blast
qed

theorem failure_isolation_witness:
  "\<exists>r. generate_wordlist
          [(1, [PyNone]), (0, [PyStr (str ''xq'')]), (2, [PyStr (str ''xq''), PyNone])]
          [PyStr (str ''xq''), PyNone] [] = Some r
       \<and> length (failures r) = 2
       \<and> set (failures r)
           = {([PyNone], TypeError), ([PyStr (str ''xq''), PyNone], TypeError)}
       \<and> wordlist r = {str ''xq''}"
proof -
  have c: "combos_of [PyStr (str ''xq''), PyNone]
      = [[PyStr (str ''xq'')], [PyNone], [PyStr (str ''xq''), PyNone]]"
    by code_simp
  have s: "schedule_of [PyStr (str ''xq''), PyNone]
     [(1, [PyNone]), (0, [PyStr (str ''xq'')]), (2, [PyStr (str ''xq''), PyNone])]"
    by (simp add: schedule_of_def units_of_def c)
  have n: "length (filter (\<lambda>c. \<not> succeeds [] c)
      [[PyStr (str ''xq'')], [PyNone], [PyStr (str ''xq''), PyNone]]) = 2"
    by code_simp
  have p: "process_combo [PyStr (str ''xq'')] [] = Inr {str ''xq''}"
    "process_combo [PyNone] [] = Inl TypeError"
    "process_combo [PyStr (str ''xq''), PyNone] [] = Inl TypeError"
    by code_simp+
  have f: "{(c, e). c \<in> set (combos_of [PyStr (str ''xq''), PyNone]) \<and> process_combo c [] = Inl e}
      = {([PyNone], TypeError), ([PyStr (str ''xq''), PyNone], TypeError)}"
    unfolding c using p by auto
  have u: "\<Union> {result. \<exists>c\<in>set (combos_of [PyStr (str ''xq''), PyNone]).
                  process_combo c [] = Inr result}
      = {str ''xq''}"
    unfolding c using p by auto
  from failure_isolation[OF s, of "[]"]
  obtain r where r: "generate_wordlist
          [(1, [PyNone]), (0, [PyStr (str ''xq'')]), (2, [PyStr (str ''xq''), PyNone])]
          [PyStr (str ''xq''), PyNone] [] = Some r"
    "set (failures r)
       = {(c, e). c \<in> set (combos_of [PyStr (str ''xq''), PyNone]) \<and> process_combo c [] = Inl e}"
    "length (failures r)
       = length (filter (\<lambda>c. \<not> succeeds [] c) (combos_of [PyStr (str ''xq''), PyNone]))"
    "wordlist r
       = \<Union> {result. \<exists>c\<in>set (combos_of [PyStr (str ''xq''), PyNone]).
                 process_combo c [] = Inr result}"
    by blast
  from r(3) have "length (failures r) = 2" unfolding c n .
  moreover from r(2) have "set (failures r)
      = {([PyNone], TypeError), ([PyStr (str ''xq''), PyNone], TypeError)}"
    unfolding f .
  moreover from r(4) have "wordlist r = {str ''xq''}"
    unfolding u .
  ultimately show ?thesis
    using r(1) by blast
qed

text \<open>
  Claim C7, as the code has it. \<open>generate_wordlist\<close> checks nothing before it submits the
  units: for any token list every combination is submitted and the run returns. A
  combination that holds a token that is not a string fails at run time with a
  \<open>TypeError\<close>, which is reported, and the words of the other units are returned. The pool
  size is the constant \<open>MAX_THREADS\<close>, which is positive, and not an input.
\<close>

theorem no_precondition_check:
  assumes "schedule_of words sched"
  shows "0 < MAX_THREADS
     \<and> (\<exists>r. generate_wordlist sched words years = Some r
          \<and> estimated_total r = length (combos_of words)
          \<and> (\<forall>c\<in>set (combos_of words).
                \<not> list_all is_str c \<longrightarrow> (c, TypeError) \<in> set (failures r))
          \<and> wordlist r
              = \<Union> {result. \<exists>c\<in>set (combos_of words). process_combo c years = Inr result})"
  using generate_wordlist_run[OF assms, of years]
  by (auto simp: MAX_THREADS_def union_of_results_eq set_failure_lines process_combo_non_str)

theorem no_precondition_check_witness:
  "\<exists>r. generate_wordlist [(0, [PyInt 7])] [PyInt 7] [] = Some r
       \<and> estimated_total r = 1 \<and> ([PyInt 7], TypeError) \<in> set (failures r)"
proof -
  have c: "combos_of [PyInt 7] = [[PyInt 7]]"
    by code_simp
  have s: "schedule_of [PyInt 7] [(0, [PyInt 7])]"
    by (simp add: schedule_of_def units_of_def c)
  show ?thesis
    using no_precondition_check[OF s, of "[]"] by (auto simp: c)
qed

text \<open>
  Claim C7, as stated, fails on the token list \<open>[None, "x"]\<close>: three units are scheduled,
  the run returns the word of the string token, and the two units that hold \<open>None\<close> are
  reported as failures of the run.
\<close>

theorem null_token_counterexample:
  "schedule_of [PyNone, PyStr (str ''x'')] [(1, [PyStr (str ''x'')]), (0, [PyNone]), (2, [PyNone, PyStr (str ''x'')])]
   \<and> generate_wordlist [(1, [PyStr (str ''x'')]), (0, [PyNone]), (2, [PyNone, PyStr (str ''x'')])]
        [PyNone, PyStr (str ''x'')] []
       = Some \<lparr>wordlist = {str ''x''}, estimated_total = 3, processed_units = 1, progress = 1,
               failures = [([PyNone], TypeError), ([PyNone, PyStr (str ''x'')], TypeError)]\<rparr>"
  by code_simp

text \<open>
  Claim C10. On the empty token list there is no combination (\<open>main\<close> counts 0), the only
  schedule is the empty one, and the run returns no word, whatever the years are.
\<close>

theorem empty_token_list:
  assumes "schedule_of [] sched"
  shows "combos_of ([] :: pyval list) = []
     \<and> total_combos ([] :: pyval list) = 0
     \<and> generate_wordlist sched [] years
         = Some \<lparr>wordlist = {}, estimated_total = 0, processed_units = 0, progress = 0,
                 failures = []\<rparr>"
proof -
  have c: "combos_of ([] :: pyval list) = []" by (simp add: combos_of_def)
  show ?thesis
    using generate_wordlist_run[OF assms, of years]
    by (simp add: c total_combos_def union_of_results_def failure_lines_def)
qed

theorem empty_token_list_witness:
  "generate_wordlist [] [] [PyStr (str ''1999'')]
     = Some \<lparr>wordlist = {}, estimated_total = 0, processed_units = 0, progress = 0,
             failures = []\<rparr>"
proof -
  have s: "schedule_of [] []"
    by (simp add: schedule_of_def units_of_def combos_of_def)
  show ?thesis
    using empty_token_list[OF s, of "[PyStr (str ''1999'')]"] by simp
qed

end
